theory Spec2Isabelle
  imports Main
begin

section \<open>Basic types and domain errors\<close>

text \<open>
  Identifiers (\<open>uuid.UUID\<close>) are natural numbers and instants (\<open>time.Time\<close>) are integers
  on one time line. Go strings are byte sequences, so they are HOL strings: \<open>length\<close> is
  Go's \<open>len\<close>.
\<close>

type_synonym uuid = nat
type_synonym time = int

text \<open>
  The sentinel errors of \<open>internal/domain/errors.go\<close>, those of \<open>internal/auth\<close>
  (\<open>ErrInvalidToken\<close>, \<open>ErrExpiredToken\<close>, \<open>ErrInvalidPassword\<close>), bcrypt's
  \<open>ErrMismatchedHashAndPassword\<close>, the \<open>ValidationError\<close> struct (field, message), and \<open>ErrorString\<close> for a value made by
  \<open>errors.New\<close> on the spot or handed up by a collaborator (signing, publishing).
\<close>

datatype error =
    ErrNotFound
  | ErrAlreadyExists
  | ErrInvalidInput
  | ErrUnauthorized
  | ErrForbidden
  | ErrConflict
  | ErrTokenExpired
  | ErrTokenRevoked
  | ErrInvalidCredential
  | ErrVersionMismatch
  | ErrInvalidStatus
  | ErrConcurrentModification
  | ErrInvalidToken
  | ErrExpiredToken
  | ErrInvalidPassword
  | ErrMismatchedHashAndPassword
  | ValidationError string string
  | ErrorString string

section \<open>Password strength (internal/auth, ValidatePasswordStrength)\<close>

text \<open>
  The loop \<open>for _, c := range password\<close> decodes runes, and the three cases compare the
  rune with ASCII bounds. A byte below 128 is always decoded as a rune of its own (it never
  lies inside a multi-byte sequence, and an invalid byte decodes to U+FFFD), and no
  multi-byte sequence decodes to a rune below 128, so the loop sets a flag exactly at the
  bytes in that range: the model runs over the bytes.
\<close>

definition byte_in :: "char \<Rightarrow> char \<Rightarrow> char \<Rightarrow> bool" where
  "byte_in lo hi c = ((of_char lo :: nat) \<le> of_char c \<and> (of_char c :: nat) \<le> of_char hi)"

fun scan_password :: "string \<Rightarrow> bool \<times> bool \<times> bool \<Rightarrow> bool \<times> bool \<times> bool" where
  "scan_password [] flags = flags"
| "scan_password (c # cs) (hasUpper, hasLower, hasDigit) =
     scan_password cs
       (if byte_in CHR ''A'' CHR ''Z'' c then (True, hasLower, hasDigit)
        else if byte_in CHR ''a'' CHR ''z'' c then (hasUpper, True, hasDigit)
        else if byte_in CHR ''0'' CHR ''9'' c then (hasUpper, hasLower, True)
        else (hasUpper, hasLower, hasDigit))"

abbreviation TooShort :: error where
  "TooShort \<equiv> ErrorString ''password must be at least 8 characters''"
abbreviation TooLong :: error where
  "TooLong \<equiv> ErrorString ''password must be at most 72 characters''"
abbreviation MissingUpper :: error where
  "MissingUpper \<equiv> ErrorString ''password must contain at least one uppercase letter''"
abbreviation MissingLower :: error where
  "MissingLower \<equiv> ErrorString ''password must contain at least one lowercase letter''"
abbreviation MissingDigit :: error where
  "MissingDigit \<equiv> ErrorString ''password must contain at least one digit''"

text \<open>The result is Go's \<open>error\<close>: \<open>None\<close> is \<open>nil\<close>.\<close>

definition ValidatePasswordStrength :: "string \<Rightarrow> error option" where
  "ValidatePasswordStrength password =
     (if length password < 8 then Some TooShort
      else if length password > 72 then Some TooLong
      else
        (case scan_password password (False, False, False) of
           (hasUpper, hasLower, hasDigit) \<Rightarrow>
             if \<not> hasUpper then Some MissingUpper
             else if \<not> hasLower then Some MissingLower
             else if \<not> hasDigit then Some MissingDigit
             else None))"

section \<open>Permissions and roles (internal/domain)\<close>

record Permission =
  pID :: uuid
  Resource :: string
  Action :: string
  pDescription :: string
  pCreatedAt :: time

text \<open>\<open>Permission.String\<close>: the permission in \<open>resource:action\<close> format.\<close>

definition Permission_String :: "Permission \<Rightarrow> string" where
  "Permission_String p = Resource p @ '':'' @ Action p"

record Role =
  rID :: uuid
  rName :: string
  rDescription :: string
  Permissions :: "Permission list"
  rCreatedAt :: time
  rUpdatedAt :: time

text \<open>
  \<open>Role.HasPermission\<close>: the loop over \<open>r.Permissions\<close> with its four tests in the
  source's order, returning at the first that holds.
\<close>

fun HasPermission_loop :: "Permission list \<Rightarrow> string \<Rightarrow> string \<Rightarrow> bool" where
  "HasPermission_loop [] resource action = False"
| "HasPermission_loop (p # ps) resource action =
     (if Resource p = resource \<and> Action p = action then True
      else if Resource p = resource \<and> Action p = ''*'' then True
      else if Resource p = ''*'' \<and> Action p = action then True
      else if Resource p = ''*'' \<and> Action p = ''*'' then True
      else HasPermission_loop ps resource action)"

definition Role_HasPermission :: "Role \<Rightarrow> string \<Rightarrow> string \<Rightarrow> bool" where
  "Role_HasPermission r resource action = HasPermission_loop (Permissions r) resource action"

section \<open>Users and the status state machine (internal/domain/user.go)\<close>

text \<open>\<open>UserType\<close> and \<open>UserStatus\<close> are string types in the source, so any string inhabits them.\<close>

type_synonym UserType = string
type_synonym UserStatus = string

definition UserStatusPending :: UserStatus where "UserStatusPending = ''pending''"
definition UserStatusActive :: UserStatus where "UserStatusActive = ''active''"
definition UserStatusInactive :: UserStatus where "UserStatusInactive = ''inactive''"
definition UserStatusSuspended :: UserStatus where "UserStatusSuspended = ''suspended''"

definition UserStatus_Valid :: "UserStatus \<Rightarrow> bool" where
  "UserStatus_Valid s =
     (s = UserStatusPending \<or> s = UserStatusActive \<or> s = UserStatusInactive \<or>
      s = UserStatusSuspended)"

text \<open>The map literal of \<open>CanTransitionTo\<close>; a key that is absent reads as the empty slice.\<close>

definition allowed :: "UserStatus \<Rightarrow> UserStatus list" where
  "allowed s =
     (if s = UserStatusPending then [UserStatusActive, UserStatusInactive]
      else if s = UserStatusActive then [UserStatusInactive, UserStatusSuspended]
      else if s = UserStatusInactive then [UserStatusActive, UserStatusSuspended]
      else if s = UserStatusSuspended then [UserStatusActive, UserStatusInactive]
      else [])"

definition CanTransitionTo :: "UserStatus \<Rightarrow> UserStatus \<Rightarrow> bool" where
  "CanTransitionTo s target = (target \<in> set (allowed s))"

record User =
  uID :: uuid
  Email :: string
  PasswordHash :: string
  Phone :: "string option"
  Username :: string
  FullName :: string
  Type :: UserType
  Status :: UserStatus
  UserType :: UserType
  EmailVerified :: bool
  PhoneVerified :: bool
  uCreatedAt :: time
  uUpdatedAt :: time
  DeletedAt :: "time option"
  Version :: int
  Roles :: "Role list"

text \<open>
  The methods mutate the receiver and return an \<open>error\<close>; the model returns the error or
  the receiver as it is after the call. \<open>now\<close> is what \<open>time.Now().UTC()\<close> reads.
\<close>

definition ChangeStatus :: "time \<Rightarrow> User \<Rightarrow> UserStatus \<Rightarrow> error + User" where
  "ChangeStatus now u newStatus =
     (if \<not> UserStatus_Valid newStatus then Inl (ValidationError ''status'' ''invalid status'')
      else if \<not> CanTransitionTo (Status u) newStatus then
        Inl (ValidationError ''status''
               (''cannot transition from '' @ Status u @ '' to '' @ newStatus))
      else Inr (u\<lparr>Status := newStatus, uUpdatedAt := now\<rparr>))"

definition Activate :: "time \<Rightarrow> User \<Rightarrow> error + User" where
  "Activate now u =
     (if Status u = UserStatusActive then Inr u else ChangeStatus now u UserStatusActive)"

definition Suspend :: "time \<Rightarrow> User \<Rightarrow> error + User" where
  "Suspend now u =
     (if Status u = UserStatusSuspended then Inr u else ChangeStatus now u UserStatusSuspended)"

definition IsActive :: "User \<Rightarrow> bool" where
  "IsActive u = (Status u = UserStatusActive \<and> DeletedAt u = None)"

fun User_HasPermission_loop :: "Role list \<Rightarrow> string \<Rightarrow> string \<Rightarrow> bool" where
  "User_HasPermission_loop [] resource action = False"
| "User_HasPermission_loop (role # roles) resource action =
     (if Role_HasPermission role resource action then True
      else User_HasPermission_loop roles resource action)"

definition User_HasPermission :: "User \<Rightarrow> string \<Rightarrow> string \<Rightarrow> bool" where
  "User_HasPermission u resource action = User_HasPermission_loop (Roles u) resource action"

text \<open>
  \<open>User.AllPermissions\<close>: the two nested loops, threading the \<open>seen\<close> map (the set of
  keys mapped to \<open>true\<close>) and the slice \<open>perms\<close>.
\<close>

fun AllPermissions_inner ::
  "Permission list \<Rightarrow> string set \<times> Permission list \<Rightarrow> string set \<times> Permission list" where
  "AllPermissions_inner [] st = st"
| "AllPermissions_inner (p # ps) (seen, perms) =
     (let key = Resource p @ '':'' @ Action p in
      if key \<notin> seen then AllPermissions_inner ps (insert key seen, perms @ [p])
      else AllPermissions_inner ps (seen, perms))"

fun AllPermissions_outer ::
  "Role list \<Rightarrow> string set \<times> Permission list \<Rightarrow> string set \<times> Permission list" where
  "AllPermissions_outer [] st = st"
| "AllPermissions_outer (role # roles) st =
     AllPermissions_outer roles (AllPermissions_inner (Permissions role) st)"

definition AllPermissions :: "User \<Rightarrow> Permission list" where
  "AllPermissions u = snd (AllPermissions_outer (Roles u) ({}, []))"

section \<open>Refresh tokens (internal/domain/token.go)\<close>

record RefreshToken =
  tID :: uuid
  tUserID :: uuid
  TokenHash :: string
  ExpiresAt :: time
  tCreatedAt :: time
  RevokedAt :: "time option"
  IPAddress :: string
  UserAgent :: string

definition IsExpired :: "time \<Rightarrow> RefreshToken \<Rightarrow> bool" where
  "IsExpired now t = (now > ExpiresAt t)"

definition IsRevoked :: "RefreshToken \<Rightarrow> bool" where
  "IsRevoked t = (RevokedAt t \<noteq> None)"

definition IsValid :: "time \<Rightarrow> RefreshToken \<Rightarrow> bool" where
  "IsValid now t = (\<not> IsExpired now t \<and> \<not> IsRevoked t)"

section \<open>The tables (internal/storage/postgres, migrations)\<close>

text \<open>
  A table is the list of its rows. Each statement is modelled by its relational meaning on
  these lists, with the constraints of the schema that the statement can violate (primary
  keys, the \<open>UNIQUE\<close> constraints, the foreign key of \<open>refresh_tokens.user_id\<close>), mapped by
  \<open>mapError\<close>. The connection itself is taken to work. \<open>user_roles\<close> is what
  \<open>RoleRepository.GetUserRoles\<close> answers for a user id; the operations below never write
  the role tables.
\<close>

record Store =
  users :: "User list"
  user_roles :: "uuid \<Rightarrow> error + Role list"
  refresh_tokens :: "RefreshToken list"

subsection \<open>TokenRepository\<close>

text \<open>
  \<open>Create\<close>: the \<open>INSERT\<close> names every column but \<open>revoked_at\<close> and \<open>replaced_by_id\<close>,
  which stay \<open>NULL\<close>.
\<close>

definition Token_Create :: "Store \<Rightarrow> RefreshToken \<Rightarrow> error option \<times> Store" where
  "Token_Create st token =
     (if list_ex (\<lambda>r. tID r = tID token \<or> TokenHash r = TokenHash token) (refresh_tokens st)
      then (Some ErrAlreadyExists, st)
      else if \<not> list_ex (\<lambda>u. uID u = tUserID token) (users st)
      then (Some ErrConflict, st)
      else (None, st\<lparr>refresh_tokens :=
                       refresh_tokens st @ [token\<lparr>RevokedAt := None\<rparr>]\<rparr>))"

definition GetByHash :: "RefreshToken list \<Rightarrow> string \<Rightarrow> error + RefreshToken" where
  "GetByHash rows hash =
     (case find (\<lambda>r. TokenHash r = hash) rows of
        None \<Rightarrow> Inl ErrNotFound
      | Some r \<Rightarrow> Inr r)"

text \<open>
  \<open>Revoke\<close>: \<open>UPDATE refresh_tokens SET revoked_at = NOW() WHERE id = $1 AND revoked_at IS
  NULL\<close>, then \<open>ErrNotFound\<close> when no row was affected.
\<close>

definition Revoke :: "time \<Rightarrow> RefreshToken list \<Rightarrow> uuid \<Rightarrow> error option \<times> RefreshToken list" where
  "Revoke now rows tid =
     (let hit = (\<lambda>r. tID r = tid \<and> RevokedAt r = None);
          rows' = map (\<lambda>r. if hit r then r\<lparr>RevokedAt := Some now\<rparr> else r) rows
      in if length (filter hit rows) = 0 then (Some ErrNotFound, rows') else (None, rows'))"

definition RevokeAllForUser ::
  "time \<Rightarrow> RefreshToken list \<Rightarrow> uuid \<Rightarrow> error option \<times> RefreshToken list" where
  "RevokeAllForUser now rows userID =
     (None,
      map (\<lambda>r. if tUserID r = userID \<and> RevokedAt r = None then r\<lparr>RevokedAt := Some now\<rparr>
                else r) rows)"

text \<open>\<open>DeleteExpired\<close>: instants count seconds, so seven days are 604800.\<close>

definition DeleteExpired :: "time \<Rightarrow> RefreshToken list \<Rightarrow> (error + int) \<times> RefreshToken list" where
  "DeleteExpired now rows =
     (let gone = (\<lambda>r. ExpiresAt r < now - 604800)
      in (Inr (int (length (filter gone rows))), filter (\<lambda>r. \<not> gone r) rows))"

subsection \<open>UserRepository\<close>

text \<open>\<open>scanUser\<close> fills the columns it selects; \<open>Roles\<close> and \<open>UserType\<close> keep their zero values.\<close>

definition scanUser :: "User \<Rightarrow> User" where
  "scanUser row = row\<lparr>Roles := [], UserType := []\<rparr>"

text \<open>SQL \<open>LOWER\<close>, on the ASCII letters.\<close>

definition LOWER :: "string \<Rightarrow> string" where
  "LOWER s =
     map (\<lambda>c. if byte_in CHR ''A'' CHR ''Z'' c then char_of (of_char c + (32::nat)) else c) s"

definition GetByID :: "User list \<Rightarrow> uuid \<Rightarrow> error + User" where
  "GetByID rows uid =
     (case find (\<lambda>r. uID r = uid \<and> DeletedAt r = None) rows of
        None \<Rightarrow> Inl ErrNotFound
      | Some r \<Rightarrow> Inr (scanUser r))"

definition GetByEmail :: "User list \<Rightarrow> string \<Rightarrow> error + User" where
  "GetByEmail rows email =
     (case find (\<lambda>r. LOWER (Email r) = LOWER email \<and> DeletedAt r = None) rows of
        None \<Rightarrow> Inl ErrNotFound
      | Some r \<Rightarrow> Inr (scanUser r))"

text \<open>
  \<open>Update\<close>: the conditional \<open>UPDATE ... SET ..., version = version + 1 WHERE id = $1 AND
  version = $12 AND deleted_at IS NULL\<close>. The statement fails, changing nothing, when a row
  it would write breaks \<open>users_email_unique\<close> or \<open>users_username_unique\<close>, or when
  \<open>version + 1\<close> leaves the \<open>INTEGER\<close> column. With no row affected the method reads the
  user again to tell the two causes apart. On success the caller's struct gets
  \<open>Version++\<close>: the result carries it.
\<close>

definition Update_hit :: "User \<Rightarrow> User \<Rightarrow> bool" where
  "Update_hit user r = (uID r = uID user \<and> Version r = Version user \<and> DeletedAt r = None)"

definition Update_row :: "time \<Rightarrow> User \<Rightarrow> User \<Rightarrow> User" where
  "Update_row now user r =
     r\<lparr>Email := Email user, PasswordHash := PasswordHash user, Phone := Phone user,
       Username := Username user, FullName := FullName user, Type := Type user,
       Status := Status user, EmailVerified := EmailVerified user,
       PhoneVerified := PhoneVerified user, uUpdatedAt := now, Version := Version r + 1\<rparr>"

definition Update :: "time \<Rightarrow> User list \<Rightarrow> User \<Rightarrow> (error + User) \<times> User list" where
  "Update now rows user =
     (let hits = filter (Update_hit user) rows in
      if hits \<noteq> [] \<and> Version user + 1 > 2147483647
      then (Inl (ErrorString ''integer out of range''), rows)
      else if hits \<noteq> [] \<and>
              list_ex (\<lambda>r. uID r \<noteq> uID user \<and>
                            (Email r = Email user \<or> Username r = Username user)) rows
      then (Inl ErrAlreadyExists, rows)
      else
        (let rows' = map (\<lambda>r. if Update_hit user r then Update_row now user r else r) rows in
         if length hits = 0 then
           (case GetByID rows' (uID user) of
              Inl err \<Rightarrow> (Inl err, rows')
            | Inr existing \<Rightarrow>
                if Version existing \<noteq> Version user then (Inl ErrVersionMismatch, rows')
                else (Inl ErrNotFound, rows'))
         else (Inr (user\<lparr>Version := Version user + 1\<rparr>), rows')))"

section \<open>Collaborators\<close>

text \<open>
  What the services call outside this repository is a parameter: bcrypt's comparison
  (hash, password), SHA-256 in hexadecimal, the HS256 signature of a claim set under a
  key, and the event publisher. \<open>Fresh\<close> holds what one call reads from the clock and the
  random sources: \<open>time.Now\<close> (one instant per call), the \<open>uuid.New\<close> of the access
  token, of the refresh-token record and of the event, and \<open>GenerateTokenString\<close>.
\<close>

record Event =
  eID :: uuid
  eType :: string
  eTimestamp :: time
  eUserID :: uuid
  eData :: "(string \<times> string) list"

record Claims =
  cID :: uuid
  cSubject :: uuid
  cIssuer :: string
  cAudience :: "string list"
  cIssuedAt :: time
  cExpiresAt :: time
  cNotBefore :: time
  cUserID :: uuid
  cEmail :: string
  cUsername :: string
  cUserType :: string
  cPermissions :: "string list"

record Deps =
  CompareHashAndPassword :: "string \<Rightarrow> string \<Rightarrow> error option"
  Sum256_hex :: "string \<Rightarrow> string"
  SignedString :: "string \<Rightarrow> Claims \<Rightarrow> error + string"
  Publish :: "Event \<Rightarrow> error option"

record Fresh =
  Now :: time
  AccessTokenID :: uuid
  RefreshTokenID :: uuid
  TokenString :: "error + string"
  EventID :: uuid

section \<open>Passwords and token hashes (internal/auth)\<close>

definition CheckPassword :: "Deps \<Rightarrow> string \<Rightarrow> string \<Rightarrow> error option" where
  "CheckPassword deps password hash =
     (case CompareHashAndPassword deps hash password of
        Some err \<Rightarrow>
          if err = ErrMismatchedHashAndPassword then Some ErrInvalidPassword else Some err
      | None \<Rightarrow> None)"

definition HashToken :: "Deps \<Rightarrow> string \<Rightarrow> string" where
  "HashToken deps token = Sum256_hex deps token"

section \<open>Access tokens (internal/auth/jwt.go)\<close>

record JWTConfig =
  SecretKey :: string
  AccessTokenTTL :: int
  RefreshTokenTTL :: int
  Issuer :: string
  Audience :: "string list"

record TokenPayload =
  plUserID :: uuid
  plEmail :: string
  plUsername :: string
  plUserType :: string
  plPermissions :: "string list"

text \<open>The claim set that \<open>GenerateAccessToken\<close> builds before signing.\<close>

definition access_claims :: "JWTConfig \<Rightarrow> time \<Rightarrow> uuid \<Rightarrow> TokenPayload \<Rightarrow> Claims" where
  "access_claims config now jti payload =
     \<lparr>cID = jti, cSubject = plUserID payload, cIssuer = Issuer config,
      cAudience = Audience config, cIssuedAt = now,
      cExpiresAt = now + AccessTokenTTL config, cNotBefore = now,
      cUserID = plUserID payload, cEmail = plEmail payload, cUsername = plUsername payload,
      cUserType = plUserType payload, cPermissions = plPermissions payload\<rparr>"

definition GenerateAccessToken ::
  "JWTConfig \<Rightarrow> Deps \<Rightarrow> time \<Rightarrow> uuid \<Rightarrow> TokenPayload \<Rightarrow> error + (string \<times> time)" where
  "GenerateAccessToken config deps now jti payload =
     (case SignedString deps (SecretKey config) (access_claims config now jti payload) of
        Inl err \<Rightarrow> Inl err
      | Inr tokenString \<Rightarrow> Inr (tokenString, now + AccessTokenTTL config))"

text \<open>
  \<open>ValidateAccessToken\<close> hands the token string and a key function to
  \<open>jwt.ParseWithClaims\<close> of the golang-jwt library, which is a parameter here. Its answer
  is the parsed token or an error; an error is the list of the library's sentinel errors
  it wraps, so that \<open>errors.Is(err, jwt.ErrTokenExpired)\<close> is membership. \<open>tkClaims\<close> is
  \<open>None\<close> when the type assertion to \<open>*Claims\<close> fails.
\<close>

datatype SigningMethod = SigningMethodHMAC string | SigningMethodOther string

datatype jwt_error =
    jwt_ErrTokenMalformed
  | jwt_ErrTokenUnverifiable
  | jwt_ErrTokenSignatureInvalid
  | jwt_ErrTokenInvalidClaims
  | jwt_ErrTokenExpired
  | jwt_ErrTokenNotValidYet
  | jwt_ErrTokenUsedBeforeIssued
  | jwt_ErrTokenInvalidAudience
  | jwt_ErrTokenInvalidIssuer
  | jwt_Wrapped error

record Token =
  Method :: SigningMethod
  tkClaims :: "Claims option"
  Valid :: bool

type_synonym ParseWithClaims = "string \<Rightarrow> (Token \<Rightarrow> error + string) \<Rightarrow> jwt_error list + Token"

definition keyfunc :: "JWTConfig \<Rightarrow> Token \<Rightarrow> error + string" where
  "keyfunc config token =
     (case Method token of
        SigningMethodHMAC alg \<Rightarrow> Inr (SecretKey config)
      | SigningMethodOther alg \<Rightarrow> Inl ErrInvalidToken)"

definition ValidateAccessToken :: "JWTConfig \<Rightarrow> ParseWithClaims \<Rightarrow> string \<Rightarrow> error + Claims" where
  "ValidateAccessToken config parse tokenString =
     (case parse tokenString (keyfunc config) of
        Inl err \<Rightarrow>
          if jwt_ErrTokenExpired \<in> set err then Inl ErrExpiredToken
          else Inl ErrInvalidToken
      | Inr token \<Rightarrow>
          (case tkClaims token of
             None \<Rightarrow> Inl ErrInvalidToken
           | Some claims \<Rightarrow> if \<not> Valid token then Inl ErrInvalidToken else Inr claims))"

section \<open>Domain events (internal/domain/event.go)\<close>

definition NewEvent :: "uuid \<Rightarrow> time \<Rightarrow> string \<Rightarrow> uuid \<Rightarrow> (string \<times> string) list \<Rightarrow> Event" where
  "NewEvent eid now eventType userID data =
     \<lparr>eID = eid, eType = eventType, eTimestamp = now, eUserID = userID, eData = data\<rparr>"

definition UserLoggedInEvent :: "uuid \<Rightarrow> time \<Rightarrow> uuid \<Rightarrow> string \<Rightarrow> string \<Rightarrow> Event" where
  "UserLoggedInEvent eid now userID ipAddress userAgent =
     NewEvent eid now ''user.logged_in'' userID
       [(''ip_address'', ipAddress), (''user_agent'', userAgent)]"

definition UserActivatedEvent :: "uuid \<Rightarrow> time \<Rightarrow> User \<Rightarrow> Event" where
  "UserActivatedEvent eid now u =
     NewEvent eid now ''user.activated'' (uID u)
       [(''email'', Email u), (''username'', Username u)]"

section \<open>AuthService (internal/service)\<close>

record LoginInput =
  liEmail :: string
  liPassword :: string
  liIPAddress :: string
  liUserAgent :: string

record LoginResult =
  lrAccessToken :: string
  lrRefreshToken :: string
  lrExpiresInSeconds :: int
  lrUser :: User

record RefreshTokenInput =
  riRefreshToken :: string
  riIPAddress :: string
  riUserAgent :: string

record TokenPair =
  pairAccessToken :: string
  pairRefreshToken :: string
  pairExpiresIn :: int

text \<open>The payload that \<open>generateTokens\<close> builds: one permission string per flattened permission.\<close>

definition token_payload :: "User \<Rightarrow> TokenPayload" where
  "token_payload user =
     \<lparr>plUserID = uID user, plEmail = Email user, plUsername = Username user,
      plUserType = Type user,
      plPermissions = map Permission_String (AllPermissions user)\<rparr>"

definition generateTokens ::
  "JWTConfig \<Rightarrow> Deps \<Rightarrow> Fresh \<Rightarrow> Store \<Rightarrow> User \<Rightarrow> string \<Rightarrow> string \<Rightarrow>
     (error + TokenPair) \<times> Store" where
  "generateTokens config deps fresh st user ipAddress userAgent =
     (case GenerateAccessToken config deps (Now fresh) (AccessTokenID fresh)
             (token_payload user) of
        Inl err \<Rightarrow> (Inl err, st)
      | Inr (accessToken, expiresAt) \<Rightarrow>
          (case TokenString fresh of
             Inl err \<Rightarrow> (Inl err, st)
           | Inr refreshTokenString \<Rightarrow>
               (let refreshToken =
                      \<lparr>tID = RefreshTokenID fresh, tUserID = uID user,
                       TokenHash = HashToken deps refreshTokenString,
                       ExpiresAt = Now fresh + RefreshTokenTTL config,
                       tCreatedAt = Now fresh, RevokedAt = None,
                       IPAddress = ipAddress, UserAgent = userAgent\<rparr>
                in case Token_Create st refreshToken of
                     (Some err, st') \<Rightarrow> (Inl err, st')
                   | (None, st') \<Rightarrow>
                       (Inr \<lparr>pairAccessToken = accessToken,
                             pairRefreshToken = refreshTokenString,
                             pairExpiresIn = AccessTokenTTL config\<rparr>, st'))))"

definition Login ::
  "JWTConfig \<Rightarrow> Deps \<Rightarrow> Fresh \<Rightarrow> Store \<Rightarrow> LoginInput \<Rightarrow> (error + LoginResult) \<times> Store" where
  "Login config deps fresh st input =
     (case GetByEmail (users st) (liEmail input) of
        Inl err \<Rightarrow> (Inl ErrInvalidCredential, st)
      | Inr user \<Rightarrow>
          (case CheckPassword deps (liPassword input) (PasswordHash user) of
             Some err \<Rightarrow> (Inl ErrInvalidCredential, st)
           | None \<Rightarrow>
               if \<not> IsActive user then (Inl ErrUnauthorized, st)
               else
                 (case user_roles st (uID user) of
                    Inl err \<Rightarrow> (Inl err, st)
                  | Inr roles \<Rightarrow>
                      (case generateTokens config deps fresh st (user\<lparr>Roles := roles\<rparr>)
                              (liIPAddress input) (liUserAgent input) of
                         (Inl err, st') \<Rightarrow> (Inl err, st')
                       | (Inr tokens, st') \<Rightarrow>
                           (case Publish deps
                                   (UserLoggedInEvent (EventID fresh) (Now fresh) (uID user)
                                      (liIPAddress input) (liUserAgent input)) of
                              Some err \<Rightarrow> (Inl err, st')
                            | None \<Rightarrow>
                                (Inr \<lparr>lrAccessToken = pairAccessToken tokens,
                                      lrRefreshToken = pairRefreshToken tokens,
                                      lrExpiresInSeconds = AccessTokenTTL config,
                                      lrUser = user\<lparr>Roles := roles\<rparr>\<rparr>, st'))))))"

text \<open>
  \<open>RefreshToken\<close>. The results of \<open>RevokeAllForUser\<close> and \<open>Revoke\<close> are discarded
  (\<open>_ =\<close>); their effect on the table stays.
\<close>

definition RefreshToken ::
  "JWTConfig \<Rightarrow> Deps \<Rightarrow> Fresh \<Rightarrow> Store \<Rightarrow> RefreshTokenInput \<Rightarrow>
     (error + LoginResult) \<times> Store" where
  "RefreshToken config deps fresh st input =
     (case GetByHash (refresh_tokens st) (HashToken deps (riRefreshToken input)) of
        Inl err \<Rightarrow> (Inl ErrInvalidCredential, st)
      | Inr storedToken \<Rightarrow>
          if \<not> IsValid (Now fresh) storedToken then
            (if IsRevoked storedToken then
               (Inl ErrInvalidCredential,
                st\<lparr>refresh_tokens :=
                     snd (RevokeAllForUser (Now fresh) (refresh_tokens st)
                            (tUserID storedToken))\<rparr>)
             else (Inl ErrInvalidCredential, st))
          else
            (case GetByID (users st) (tUserID storedToken) of
               Inl err \<Rightarrow> (Inl ErrInvalidCredential, st)
             | Inr user \<Rightarrow>
                 if \<not> IsActive user then
                   (Inl ErrUnauthorized,
                    st\<lparr>refresh_tokens :=
                         snd (Revoke (Now fresh) (refresh_tokens st) (tID storedToken))\<rparr>)
                 else
                   (case user_roles st (uID user) of
                      Inl err \<Rightarrow> (Inl err, st)
                    | Inr roles \<Rightarrow>
                        (let st1 = st\<lparr>refresh_tokens :=
                                        snd (Revoke (Now fresh) (refresh_tokens st)
                                               (tID storedToken))\<rparr>
                         in case generateTokens config deps fresh st1 (user\<lparr>Roles := roles\<rparr>)
                                   (riIPAddress input) (riUserAgent input) of
                              (Inl err, st') \<Rightarrow> (Inl err, st')
                            | (Inr tokens, st') \<Rightarrow>
                                (Inr \<lparr>lrAccessToken = pairAccessToken tokens,
                                      lrRefreshToken = pairRefreshToken tokens,
                                      lrExpiresInSeconds = AccessTokenTTL config,
                                      lrUser = user\<lparr>Roles := roles\<rparr>\<rparr>, st')))))"

definition Logout :: "Deps \<Rightarrow> Fresh \<Rightarrow> Store \<Rightarrow> string \<Rightarrow> error option \<times> Store" where
  "Logout deps fresh st refreshToken =
     (case GetByHash (refresh_tokens st) (HashToken deps refreshToken) of
        Inl err \<Rightarrow> (None, st)
      | Inr storedToken \<Rightarrow>
          (case Revoke (Now fresh) (refresh_tokens st) (tID storedToken) of
             (Some err, rows') \<Rightarrow> (Some err, st\<lparr>refresh_tokens := rows'\<rparr>)
           | (None, rows') \<Rightarrow>
               (case Publish deps
                       (NewEvent (EventID fresh) (Now fresh) ''user.logged_out''
                          (tUserID storedToken) []) of
                  Some err \<Rightarrow> (Some err, st\<lparr>refresh_tokens := rows'\<rparr>)
                | None \<Rightarrow> (None, st\<lparr>refresh_tokens := rows'\<rparr>))))"

definition LogoutAll :: "Fresh \<Rightarrow> Store \<Rightarrow> uuid \<Rightarrow> error option \<times> Store" where
  "LogoutAll fresh st userID =
     (case RevokeAllForUser (Now fresh) (refresh_tokens st) userID of
        (err, rows') \<Rightarrow> (err, st\<lparr>refresh_tokens := rows'\<rparr>))"

section \<open>UserService (internal/service/user.go)\<close>

text \<open>\<open>ActivateUser\<close> publishes its event and discards the publisher's answer (\<open>_ =\<close>).\<close>

definition ActivateUser :: "Deps \<Rightarrow> Fresh \<Rightarrow> Store \<Rightarrow> uuid \<Rightarrow> error option \<times> Store" where
  "ActivateUser deps fresh st uid =
     (case GetByID (users st) uid of
        Inl err \<Rightarrow> (Some err, st)
      | Inr user \<Rightarrow>
          (case Activate (Now fresh) user of
             Inl err \<Rightarrow> (Some err, st)
           | Inr user1 \<Rightarrow>
               (case Update (Now fresh) (users st) user1 of
                  (Inl err, rows') \<Rightarrow> (Some err, st\<lparr>users := rows'\<rparr>)
                | (Inr user2, rows') \<Rightarrow>
                    (case Publish deps (UserActivatedEvent (EventID fresh) (Now fresh) user2) of
                       published \<Rightarrow> (None, st\<lparr>users := rows'\<rparr>)))))"

section \<open>Reference definitions and example data\<close>

text \<open>
  The grant rule in the specification's words, over the set of (resource, action) pairs
  that a permission list holds.
\<close>

definition spec_Grants :: "(string \<times> string) set \<Rightarrow> string \<Rightarrow> string \<Rightarrow> bool" where
  "spec_Grants S r a =
     ((r, a) \<in> S \<or> (r, ''*'') \<in> S \<or> (''*'', a) \<in> S \<or> (''*'', ''*'') \<in> S)"

definition pairs_of :: "Permission list \<Rightarrow> (string \<times> string) set" where
  "pairs_of ps = (\<lambda>p. (Resource p, Action p)) ` set ps"

text \<open>Concrete values on which the theorems are instantiated.\<close>

definition example_permission :: "string \<Rightarrow> string \<Rightarrow> Permission" where
  "example_permission r a =
     \<lparr>pID = 1, Resource = r, Action = a, pDescription = [], pCreatedAt = 0\<rparr>"

definition example_role :: "Permission list \<Rightarrow> Role" where
  "example_role ps =
     \<lparr>rID = 1, rName = ''user'', rDescription = [], Permissions = ps, rCreatedAt = 0,
      rUpdatedAt = 0\<rparr>"

definition example_user :: User where
  "example_user =
     \<lparr>uID = 7, Email = ''a@b.com'', PasswordHash = ''hash'', Phone = None,
      Username = ''abc'', FullName = ''A B'', Type = ''customer'', Status = ''active'',
      UserType = [], EmailVerified = False, PhoneVerified = False, uCreatedAt = 0,
      uUpdatedAt = 0, DeletedAt = None, Version = 1, Roles = []\<rparr>"

text \<open>The four statuses and the transition table, as the specification lists them.\<close>

definition spec_statuses :: "UserStatus list" where
  "spec_statuses = [''pending'', ''active'', ''inactive'', ''suspended'']"

definition spec_transitions :: "(UserStatus \<times> UserStatus) list" where
  "spec_transitions =
     [(''pending'', ''active''), (''pending'', ''inactive''),
      (''active'', ''inactive''), (''active'', ''suspended''),
      (''inactive'', ''active''), (''inactive'', ''suspended''),
      (''suspended'', ''active''), (''suspended'', ''inactive'')]"

text \<open>
  The flattening described directly: run through the permissions and keep one when its
  \<open>resource:action\<close> string has not been met before.
\<close>

fun keep_first :: "string set \<Rightarrow> Permission list \<Rightarrow> Permission list" where
  "keep_first seen [] = []"
| "keep_first seen (p # ps) =
     (if Permission_String p \<in> seen then keep_first seen ps
      else p # keep_first (insert (Permission_String p) seen) ps)"

definition example_config :: JWTConfig where
  "example_config =
     \<lparr>SecretKey = ''secret'', AccessTokenTTL = 900, RefreshTokenTTL = 604800,
      Issuer = ''mvaleed'', Audience = []\<rparr>"

text \<open>The rows of \<open>users\<close> after the \<open>UPDATE\<close> of \<open>Update\<close> has run.\<close>

definition Update_write :: "time \<Rightarrow> User \<Rightarrow> User list \<Rightarrow> User list" where
  "Update_write now user rows =
     map (\<lambda>r. if Update_hit user r then Update_row now user r else r) rows"

text \<open>
  The calls a client of \<open>TokenRepository\<close> can make, each at its instant, and the table
  after a sequence of them.
\<close>

datatype token_op =
    OpCreate RefreshToken
  | OpGetByHash string
  | OpRevoke uuid
  | OpRevokeAllForUser uuid
  | OpDeleteExpired

fun token_step :: "Store \<Rightarrow> time \<times> token_op \<Rightarrow> Store" where
  "token_step st (now, OpCreate token) = snd (Token_Create st token)"
| "token_step st (now, OpGetByHash hash) = st"
| "token_step st (now, OpRevoke tid) =
     st\<lparr>refresh_tokens := snd (Revoke now (refresh_tokens st) tid)\<rparr>"
| "token_step st (now, OpRevokeAllForUser userID) =
     st\<lparr>refresh_tokens := snd (RevokeAllForUser now (refresh_tokens st) userID)\<rparr>"
| "token_step st (now, OpDeleteExpired) =
     st\<lparr>refresh_tokens := snd (DeleteExpired now (refresh_tokens st))\<rparr>"

definition run_token_ops :: "Store \<Rightarrow> (time \<times> token_op) list \<Rightarrow> Store" where
  "run_token_ops st ops = foldl token_step st ops"

definition example_token :: RefreshToken where
  "example_token =
     \<lparr>tID = 3, tUserID = 7, TokenHash = ''h3'', ExpiresAt = 1000, tCreatedAt = 0,
      RevokedAt = None, IPAddress = ''10.0.0.1'', UserAgent = ''curl''\<rparr>"

definition example_store :: Store where
  "example_store =
     \<lparr>users = [example_user], user_roles = (\<lambda>uid. Inr []), refresh_tokens = [example_token]\<rparr>"

section \<open>Verification: password strength\<close>

lemma scan_password_flags:
  "scan_password cs (u, l, d) =
     (u \<or> (\<exists>c \<in> set cs. byte_in CHR ''A'' CHR ''Z'' c),
      l \<or> (\<exists>c \<in> set cs. byte_in CHR ''a'' CHR ''z'' c),
      d \<or> (\<exists>c \<in> set cs. byte_in CHR ''0'' CHR ''9'' c))"
proof (induction cs arbitrary: u l d)
  case Nil
  show ?case by simp
next
  case (Cons c cs)
  have disj: "\<not> (byte_in CHR ''A'' CHR ''Z'' c \<and> byte_in CHR ''a'' CHR ''z'' c)"
    "\<not> (byte_in CHR ''A'' CHR ''Z'' c \<and> byte_in CHR ''0'' CHR ''9'' c)"
    "\<not> (byte_in CHR ''a'' CHR ''z'' c \<and> byte_in CHR ''0'' CHR ''9'' c)"
    by (simp_all add: byte_in_def)
  show ?case
    using disj by (auto simp: Cons.IH)
qed

text \<open>
  Claim C7. The strength check succeeds exactly on the passwords of 8 to 72 bytes that hold
  an uppercase letter, a lowercase letter and a digit; below 8 it fails with the
  too-short error, above 72 with the too-long error; \<open>short1A\<close> fails as too short,
  \<open>alllowercase1\<close> fails for the missing uppercase letter and \<open>Password123\<close> passes. The
  check is a function of the password alone: it reads and writes no state.
\<close>

theorem ValidatePasswordStrength_policy:
  "(ValidatePasswordStrength password = None \<longleftrightarrow>
      8 \<le> length password \<and> length password \<le> 72 \<and>
      (\<exists>c \<in> set password. byte_in CHR ''A'' CHR ''Z'' c) \<and>
      (\<exists>c \<in> set password. byte_in CHR ''a'' CHR ''z'' c) \<and>
      (\<exists>c \<in> set password. byte_in CHR ''0'' CHR ''9'' c)) \<and>
   (length password < 8 \<longrightarrow> ValidatePasswordStrength password = Some TooShort) \<and>
   (length password > 72 \<longrightarrow> ValidatePasswordStrength password = Some TooLong) \<and>
   ValidatePasswordStrength ''short1A'' = Some TooShort \<and>
   ValidatePasswordStrength ''alllowercase1'' = Some MissingUpper \<and>
   ValidatePasswordStrength ''Password123'' = None"
proof -
  have iff: "ValidatePasswordStrength password = None \<longleftrightarrow>
      8 \<le> length password \<and> length password \<le> 72 \<and>
      (\<exists>c \<in> set password. byte_in CHR ''A'' CHR ''Z'' c) \<and>
      (\<exists>c \<in> set password. byte_in CHR ''a'' CHR ''z'' c) \<and>
      (\<exists>c \<in> set password. byte_in CHR ''0'' CHR ''9'' c)"
    by (auto simp: ValidatePasswordStrength_def scan_password_flags)
  have short: "length password < 8 \<longrightarrow> ValidatePasswordStrength password = Some TooShort"
    by (simp add: ValidatePasswordStrength_def)
  have long: "length password > 72 \<longrightarrow> ValidatePasswordStrength password = Some TooLong"
    by (simp add: ValidatePasswordStrength_def)
  have e1: "ValidatePasswordStrength ''short1A'' = Some TooShort"
    by (simp add: ValidatePasswordStrength_def)
  have e2: "ValidatePasswordStrength ''alllowercase1'' = Some MissingUpper"
    by (simp add: ValidatePasswordStrength_def byte_in_def)
  have e3: "ValidatePasswordStrength ''Password123'' = None"
    by (simp add: ValidatePasswordStrength_def byte_in_def)
  from iff short long e1 e2 e3 show ?thesis by blast
qed

theorem ValidatePasswordStrength_policy_witness:
  "ValidatePasswordStrength ''Sh0rt'' = Some TooShort \<and>
   ValidatePasswordStrength (replicate 73 CHR ''a'') = Some TooLong \<and>
   ValidatePasswordStrength ''Passw0rd'' = None"
proof -
  have a: "ValidatePasswordStrength ''Sh0rt'' = Some TooShort"
    using ValidatePasswordStrength_policy [of "''Sh0rt''"] by simp
  have b: "ValidatePasswordStrength (replicate 73 CHR ''a'') = Some TooLong"
    using ValidatePasswordStrength_policy [of "replicate 73 CHR ''a''"] by simp
  have c: "ValidatePasswordStrength ''Passw0rd'' = None"
    using ValidatePasswordStrength_policy [of "''Passw0rd''"] by (simp add: byte_in_def)
  from a b c show ?thesis by blast
qed

section \<open>Verification: the grant check\<close>

lemma HasPermission_loop_Grants:
  "HasPermission_loop ps resource action = spec_Grants (pairs_of ps) resource action"
proof (induction ps)
  case Nil
  show ?case by (simp add: spec_Grants_def pairs_of_def)
next
  case (Cons p ps)
  then show ?case by (auto simp: spec_Grants_def pairs_of_def)
qed

lemma User_HasPermission_loop_Grants:
  "User_HasPermission_loop rs resource action =
     spec_Grants (pairs_of (concat (map Permissions rs))) resource action"
proof (induction rs)
  case Nil
  show ?case by (simp add: spec_Grants_def pairs_of_def)
next
  case (Cons r rs)
  have "pairs_of (concat (map Permissions (r # rs))) =
        pairs_of (Permissions r) \<union> pairs_of (concat (map Permissions rs))"
    by (simp add: pairs_of_def image_Un)
  then show ?case
    using Cons.IH
    by (simp add: Role_HasPermission_def HasPermission_loop_Grants spec_Grants_def)
qed

text \<open>
  Claim C2. The grant check of a role, and of a user over all its roles, is true exactly
  when the permissions examined hold the exact pair, (resource, *), (*, action) or (*, *),
  and false otherwise: there is no deny rule. The answer depends on the set of
  permissions only, so the loop that returns at the first match agrees with a full scan
  in any order.
\<close>

theorem HasPermission_is_Grants:
  "Role_HasPermission r resource action = spec_Grants (pairs_of (Permissions r)) resource action \<and>
   User_HasPermission u resource action =
     spec_Grants (pairs_of (concat (map Permissions (Roles u)))) resource action \<and>
   (set (Permissions r) = set (Permissions r') \<longrightarrow>
      Role_HasPermission r resource action = Role_HasPermission r' resource action) \<and>
   (set (concat (map Permissions (Roles u))) = set (concat (map Permissions (Roles u'))) \<longrightarrow>
      User_HasPermission u resource action = User_HasPermission u' resource action)"
  by (simp add: Role_HasPermission_def User_HasPermission_def HasPermission_loop_Grants
      User_HasPermission_loop_Grants pairs_of_def)

theorem HasPermission_is_Grants_witness:
  "Role_HasPermission
     (example_role [example_permission ''users'' ''read'', example_permission ''orders'' ''*''])
     ''orders'' ''delete'' \<and>
   Role_HasPermission
     (example_role [example_permission ''orders'' ''*'', example_permission ''users'' ''read''])
     ''orders'' ''delete'' \<and>
   \<not> Role_HasPermission
     (example_role [example_permission ''users'' ''read'', example_permission ''orders'' ''*''])
     ''users'' ''write'' \<and>
   User_HasPermission
     (example_user\<lparr>Roles := [example_role [example_permission ''users'' ''read''],
                              example_role [example_permission ''*'' ''write'']]\<rparr>)
     ''orders'' ''write'' \<and>
   User_HasPermission
     (example_user\<lparr>Roles := [example_role [example_permission ''*'' ''write''],
                              example_role [example_permission ''users'' ''read'']]\<rparr>)
     ''orders'' ''write''"
proof -
  let ?a = "example_permission ''users'' ''read''"
  let ?b = "example_permission ''orders'' ''*''"
  let ?c = "example_permission ''*'' ''write''"
  have r1: "Role_HasPermission (example_role [?a, ?b]) ''orders'' ''delete''"
    using HasPermission_is_Grants [of "example_role [?a, ?b]" "''orders''" "''delete''"]
    by (simp add: spec_Grants_def pairs_of_def example_role_def example_permission_def)
  have r2: "Role_HasPermission (example_role [?b, ?a]) ''orders'' ''delete''"
    using r1 HasPermission_is_Grants [of "example_role [?a, ?b]" "''orders''" "''delete''"
        example_user "example_role [?b, ?a]" example_user]
    by (simp add: example_role_def insert_commute)
  have r3: "\<not> Role_HasPermission (example_role [?a, ?b]) ''users'' ''write''"
    using HasPermission_is_Grants [of "example_role [?a, ?b]" "''users''" "''write''"]
    by (simp add: spec_Grants_def pairs_of_def example_role_def example_permission_def)
  have u1: "User_HasPermission (example_user\<lparr>Roles := [example_role [?a], example_role [?c]]\<rparr>)
              ''orders'' ''write''"
    using HasPermission_is_Grants [of _ "''orders''" "''write''"
        "example_user\<lparr>Roles := [example_role [?a], example_role [?c]]\<rparr>"]
    by (simp add: spec_Grants_def pairs_of_def example_role_def example_permission_def)
  have u2: "User_HasPermission (example_user\<lparr>Roles := [example_role [?c], example_role [?a]]\<rparr>)
              ''orders'' ''write''"
    using u1 HasPermission_is_Grants [of _ "''orders''" "''write''"
        "example_user\<lparr>Roles := [example_role [?a], example_role [?c]]\<rparr>" _
        "example_user\<lparr>Roles := [example_role [?c], example_role [?a]]\<rparr>"]
    by (simp add: example_role_def insert_commute)
  from r1 r2 r3 u1 u2 show ?thesis by blast
qed

section \<open>Verification: status transitions\<close>

lemmas status_defs =
  UserStatusPending_def UserStatusActive_def UserStatusInactive_def UserStatusSuspended_def

lemma UserStatus_Valid_iff: "UserStatus_Valid s \<longleftrightarrow> s \<in> set spec_statuses"
  by (auto simp: UserStatus_Valid_def spec_statuses_def status_defs)

lemma CanTransitionTo_iff: "CanTransitionTo s t \<longleftrightarrow> (s, t) \<in> set spec_transitions"
  by (auto simp: CanTransitionTo_def allowed_def spec_transitions_def status_defs)

lemma ChangeStatus_eq:
  "ChangeStatus now u target =
     (if target \<notin> set spec_statuses then Inl (ValidationError ''status'' ''invalid status'')
      else if (Status u, target) \<in> set spec_transitions
      then Inr (u\<lparr>Status := target, uUpdatedAt := now\<rparr>)
      else Inl (ValidationError ''status''
                  (''cannot transition from '' @ Status u @ '' to '' @ target)))"
  by (simp add: ChangeStatus_def UserStatus_Valid_iff CanTransitionTo_iff)

lemma no_self_transition: "(s, s) \<notin> set spec_transitions"
  by (auto simp: spec_transitions_def)

text \<open>
  Claim C3, as the code has it. For source and target among the four statuses,
  \<open>ChangeStatus\<close> succeeds exactly when (source, target) is an edge of the transition
  table, and then sets the status; every other pair, the pair with source equal to target
  included, fails with the validation error on \<open>status\<close> that names source and target.
  Repeating the current status is a no-op without error only through \<open>Activate\<close> (when
  already active) and \<open>Suspend\<close> (when already suspended); \<open>Activate\<close> succeeds from
  every status, \<open>Suspend\<close> fails from pending.
\<close>

theorem ChangeStatus_follows_table:
  assumes "Status u \<in> set spec_statuses" and "target \<in> set spec_statuses"
  shows "ChangeStatus now u target =
           (if (Status u, target) \<in> set spec_transitions
            then Inr (u\<lparr>Status := target, uUpdatedAt := now\<rparr>)
            else Inl (ValidationError ''status''
                        (''cannot transition from '' @ Status u @ '' to '' @ target))) \<and>
         ChangeStatus now u (Status u) =
           Inl (ValidationError ''status''
                  (''cannot transition from '' @ Status u @ '' to '' @ Status u)) \<and>
         Activate now u =
           (if Status u = ''active'' then Inr u
            else Inr (u\<lparr>Status := ''active'', uUpdatedAt := now\<rparr>)) \<and>
         Suspend now u =
           (if Status u = ''suspended'' then Inr u
            else if Status u = ''pending''
            then Inl (ValidationError ''status'' ''cannot transition from pending to suspended'')
            else Inr (u\<lparr>Status := ''suspended'', uUpdatedAt := now\<rparr>))"
proof -
  have a: "ChangeStatus now u target =
           (if (Status u, target) \<in> set spec_transitions
            then Inr (u\<lparr>Status := target, uUpdatedAt := now\<rparr>)
            else Inl (ValidationError ''status''
                        (''cannot transition from '' @ Status u @ '' to '' @ target)))"
    using assms(2) by (simp add: ChangeStatus_eq)
  have b: "ChangeStatus now u (Status u) =
           Inl (ValidationError ''status''
                  (''cannot transition from '' @ Status u @ '' to '' @ Status u))"
    using assms(1) by (simp add: ChangeStatus_eq no_self_transition)
  have c: "Activate now u =
           (if Status u = ''active'' then Inr u
            else Inr (u\<lparr>Status := ''active'', uUpdatedAt := now\<rparr>))"
    using assms(1)
    by (auto simp: Activate_def ChangeStatus_eq status_defs spec_statuses_def
        spec_transitions_def)
  have d: "Suspend now u =
           (if Status u = ''suspended'' then Inr u
            else if Status u = ''pending''
            then Inl (ValidationError ''status'' ''cannot transition from pending to suspended'')
            else Inr (u\<lparr>Status := ''suspended'', uUpdatedAt := now\<rparr>))"
    using assms(1)
    by (auto simp: Suspend_def ChangeStatus_eq status_defs spec_statuses_def
        spec_transitions_def)
  from a b c d show ?thesis by blast
qed

text \<open>
  The claim as stated counts a request for the current status as a success; \<open>ChangeStatus\<close>
  from inactive to inactive fails.
\<close>

theorem ChangeStatus_same_status_counterexample:
  "ChangeStatus 0 (example_user\<lparr>Status := ''inactive''\<rparr>) ''inactive'' =
     Inl (ValidationError ''status'' ''cannot transition from inactive to inactive'') \<and>
   \<not> (\<not> isl (ChangeStatus 0 (example_user\<lparr>Status := ''inactive''\<rparr>) ''inactive'') \<longleftrightarrow>
        ((''inactive'', ''inactive'') \<in> set spec_transitions \<or> ''inactive'' = ''inactive''))"
  by (simp add: ChangeStatus_eq spec_statuses_def spec_transitions_def)

theorem ChangeStatus_follows_table_witness:
  "ChangeStatus 5 (example_user\<lparr>Status := ''pending''\<rparr>) ''active'' =
     Inr (example_user\<lparr>Status := ''active'', uUpdatedAt := 5\<rparr>) \<and>
   ChangeStatus 5 (example_user\<lparr>Status := ''pending''\<rparr>) ''suspended'' =
     Inl (ValidationError ''status'' ''cannot transition from pending to suspended'') \<and>
   ChangeStatus 5 (example_user\<lparr>Status := ''pending''\<rparr>) ''pending'' =
     Inl (ValidationError ''status'' ''cannot transition from pending to pending'') \<and>
   Activate 5 example_user = Inr example_user \<and>
   Suspend 5 (example_user\<lparr>Status := ''suspended''\<rparr>) =
     Inr (example_user\<lparr>Status := ''suspended''\<rparr>)"
proof -
  let ?p = "example_user\<lparr>Status := ''pending''\<rparr>"
  have s: "Status ?p \<in> set spec_statuses" "''active'' \<in> set spec_statuses"
    "''suspended'' \<in> set spec_statuses" "Status example_user \<in> set spec_statuses"
    "Status (example_user\<lparr>Status := ''suspended''\<rparr>) \<in> set spec_statuses"
    by (simp_all add: spec_statuses_def example_user_def)
  have a: "ChangeStatus 5 ?p ''active'' = Inr (example_user\<lparr>Status := ''active'', uUpdatedAt := 5\<rparr>)"
    using ChangeStatus_follows_table [OF s(1) s(2), of 5]
    by (simp add: spec_transitions_def)
  have b: "ChangeStatus 5 ?p ''suspended'' =
     Inl (ValidationError ''status'' ''cannot transition from pending to suspended'')"
    using ChangeStatus_follows_table [OF s(1) s(3), of 5]
    by (simp add: spec_transitions_def)
  have c: "ChangeStatus 5 ?p ''pending'' =
     Inl (ValidationError ''status'' ''cannot transition from pending to pending'')"
    using ChangeStatus_follows_table [OF s(1) s(2), of 5] by simp
  have d: "Activate 5 example_user = Inr example_user"
    using ChangeStatus_follows_table [OF s(4) s(2), of 5] by (simp add: example_user_def)
  have e: "Suspend 5 (example_user\<lparr>Status := ''suspended''\<rparr>) =
     Inr (example_user\<lparr>Status := ''suspended''\<rparr>)"
    using ChangeStatus_follows_table [OF s(5) s(2), of 5] by simp
  from a b c d e show ?thesis by blast
qed

section \<open>Verification: flattening of permissions\<close>

lemma AllPermissions_inner_keep_first:
  "AllPermissions_inner ps (seen, acc) =
     (seen \<union> Permission_String ` set ps, acc @ keep_first seen ps)"
proof (induction ps arbitrary: seen acc)
  case Nil
  show ?case by simp
next
  case (Cons p ps)
  show ?case
    by (auto simp: Cons.IH Let_def Permission_String_def)
qed

lemma AllPermissions_inner_append:
  "AllPermissions_inner (xs @ ys) st = AllPermissions_inner ys (AllPermissions_inner xs st)"
proof (induction xs arbitrary: st)
  case Nil
  show ?case by simp
next
  case (Cons x xs)
  obtain seen acc where st: "st = (seen, acc)" by (cases st)
  show ?case by (simp add: st Cons.IH Let_def)
qed

lemma AllPermissions_outer_concat:
  "AllPermissions_outer rs st = AllPermissions_inner (concat (map Permissions rs)) st"
  by (induction rs arbitrary: st) (simp_all add: AllPermissions_inner_append)

lemma AllPermissions_keep_first:
  "AllPermissions u = keep_first {} (concat (map Permissions (Roles u)))"
  by (simp add: AllPermissions_def AllPermissions_outer_concat AllPermissions_inner_keep_first)

lemma keep_first_keys:
  "Permission_String ` set (keep_first seen ps) = Permission_String ` set ps - seen"
  by (induction ps arbitrary: seen) auto

lemma keep_first_distinct: "distinct (map Permission_String (keep_first seen ps))"
proof (induction ps arbitrary: seen)
  case Nil
  show ?case by simp
next
  case (Cons p ps)
  have "Permission_String p \<notin> Permission_String ` set (keep_first (insert (Permission_String p) seen) ps)"
    by (simp add: keep_first_keys)
  then show ?case using Cons.IH by simp
qed

lemma keep_first_mem:
  "p \<in> set (keep_first seen ps) \<longleftrightarrow>
     Permission_String p \<notin> seen \<and>
     find (\<lambda>q. Permission_String q = Permission_String p) ps = Some p"
proof (induction ps arbitrary: seen)
  case Nil
  show ?case by simp
next
  case (Cons x ps)
  show ?case
  proof (cases "Permission_String x = Permission_String p")
    case True
    have "p \<notin> set (keep_first (insert (Permission_String x) seen) ps)"
      using keep_first_keys [of "insert (Permission_String x) seen" ps] True by auto
    moreover have "Permission_String x \<in> seen \<Longrightarrow> p \<notin> set (keep_first seen ps)"
      using keep_first_keys [of seen ps] True by auto
    ultimately show ?thesis using True by auto
  next
    case False
    then show ?thesis by (auto simp: Cons.IH)
  qed
qed

lemma distinct_count_one:
  "x \<in> set xs \<Longrightarrow> distinct xs \<Longrightarrow> count_list xs x = 1"
  by (induction xs) auto

lemma find_first_occurrence:
  assumes "P p" and "\<forall>x \<in> set xs. \<not> P x"
  shows "find P (xs @ p # rest) = Some p"
  using assms by (induction xs) auto

text \<open>
  Claim C10. The flattening deduplicates by the string \<open>resource:action\<close>, not by the
  pair. When two permissions that differ as pairs have the same string, and the first of
  them is the first permission of the user's roles (in role order) with that string, the
  flattened result holds the first and not the second, the string occurs once among the
  flattened permissions, and the permission claims of the access token built from the
  user are the strings of the flattened result.
\<close>

theorem AllPermissions_dedup_by_string:
  assumes flat: "concat (map Permissions (Roles u)) = xs @ p # ys @ q # zs"
    and same: "Permission_String p = Permission_String q"
    and diff: "(Resource p, Action p) \<noteq> (Resource q, Action q)"
    and first: "Permission_String p \<notin> Permission_String ` set xs"
  shows "p \<in> set (AllPermissions u) \<and> q \<notin> set (AllPermissions u) \<and>
         count_list (map Permission_String (AllPermissions u)) (Permission_String p) = 1 \<and>
         distinct (map Permission_String (AllPermissions u)) \<and>
         cPermissions (access_claims config now jti (token_payload u)) =
           map Permission_String (AllPermissions u)"
proof -
  let ?flat = "concat (map Permissions (Roles u))"
  have fp: "find (\<lambda>x. Permission_String x = Permission_String p) ?flat = Some p"
  proof -
    have "\<forall>x \<in> set xs. \<not> Permission_String x = Permission_String p"
      using first by (metis imageI)
    then show ?thesis
      unfolding flat by (intro find_first_occurrence) simp_all
  qed
  have p_in: "p \<in> set (AllPermissions u)"
    by (simp add: AllPermissions_keep_first keep_first_mem fp)
  have "p \<noteq> q" using diff by auto
  then have q_out: "q \<notin> set (AllPermissions u)"
    using fp same by (simp add: AllPermissions_keep_first keep_first_mem)
  have dist: "distinct (map Permission_String (AllPermissions u))"
    by (simp add: AllPermissions_keep_first keep_first_distinct)
  have "Permission_String p \<in> set (map Permission_String (AllPermissions u))"
    using p_in by auto
  then have cnt: "count_list (map Permission_String (AllPermissions u)) (Permission_String p) = 1"
    using dist by (rule distinct_count_one)
  have tok: "cPermissions (access_claims config now jti (token_payload u)) =
           map Permission_String (AllPermissions u)"
    by (simp add: access_claims_def token_payload_def)
  from p_in q_out cnt dist tok show ?thesis by blast
qed

theorem AllPermissions_dedup_by_string_witness:
  "Permission_String (example_permission ''a:b'' ''c'') =
     Permission_String (example_permission ''a'' ''b:c'') \<and>
   AllPermissions
     (example_user\<lparr>Roles := [example_role [example_permission ''a:b'' ''c''],
                              example_role [example_permission ''a'' ''b:c'']]\<rparr>) =
     [example_permission ''a:b'' ''c''] \<and>
   example_permission ''a'' ''b:c'' \<notin> set (AllPermissions
     (example_user\<lparr>Roles := [example_role [example_permission ''a:b'' ''c''],
                              example_role [example_permission ''a'' ''b:c'']]\<rparr>)) \<and>
   cPermissions (access_claims example_config 0 1 (token_payload
     (example_user\<lparr>Roles := [example_role [example_permission ''a:b'' ''c''],
                              example_role [example_permission ''a'' ''b:c'']]\<rparr>))) =
     [''a:b:c'']"
proof -
  let ?p = "example_permission ''a:b'' ''c''"
  let ?q = "example_permission ''a'' ''b:c''"
  let ?u = "example_user\<lparr>Roles := [example_role [?p], example_role [?q]]\<rparr>"
  have flat: "concat (map Permissions (Roles ?u)) = [] @ ?p # [] @ ?q # []"
    by (simp add: example_role_def)
  have same: "Permission_String ?p = Permission_String ?q"
    by (simp add: Permission_String_def example_permission_def)
  have diff: "(Resource ?p, Action ?p) \<noteq> (Resource ?q, Action ?q)"
    by (simp add: example_permission_def)
  have first: "Permission_String ?p \<notin> Permission_String ` set []" by simp
  note inst = AllPermissions_dedup_by_string [OF flat same diff first, of example_config 0 1]
  have all: "AllPermissions ?u = [?p]"
    by (simp add: AllPermissions_def example_role_def example_permission_def Let_def)
  have q_out: "?q \<notin> set (AllPermissions ?u)" using inst by blast
  have tok: "cPermissions (access_claims example_config 0 1 (token_payload ?u)) = [''a:b:c'']"
    using inst all by (simp add: Permission_String_def example_permission_def)
  from same all q_out tok show ?thesis by blast
qed

section \<open>Verification: optimistic locking of account updates\<close>

lemma Update_write_no_hit:
  "filter (Update_hit user) rows = [] \<Longrightarrow> Update_write now user rows = rows"
  unfolding Update_write_def
  by (induction rows) (auto split: if_splits)

lemma Update_row_keeps [simp]:
  "uID (Update_row now user r) = uID r"
  "DeletedAt (Update_row now user r) = DeletedAt r"
  "Version (Update_row now user r) = Version r + 1"
  by (simp_all add: Update_row_def)

lemma find_visible_write:
  "find (\<lambda>r. uID r = uid \<and> DeletedAt r = None) (Update_write now user rows) =
     map_option (\<lambda>r. if Update_hit user r then Update_row now user r else r)
       (find (\<lambda>r. uID r = uid \<and> DeletedAt r = None) rows)"
  unfolding Update_write_def
  by (induction rows) auto

lemma Update_no_hit:
  assumes "filter (Update_hit user) rows = []"
  shows "Update now rows user =
           (case GetByID rows (uID user) of
              Inl err \<Rightarrow> Inl err
            | Inr existing \<Rightarrow>
                if Version existing \<noteq> Version user then Inl ErrVersionMismatch
                else Inl ErrNotFound, rows)"
  using assms Update_write_no_hit [OF assms, of now]
  by (simp add: Update_def Update_write_def split: sum.splits)

lemma Update_Inr:
  assumes "Update now rows user = (Inr user', rows')"
  shows "filter (Update_hit user) rows \<noteq> [] \<and> user' = user\<lparr>Version := Version user + 1\<rparr> \<and>
         rows' = Update_write now user rows"
  using assms
  by (auto simp: Update_def Update_write_def Let_def split: if_splits sum.splits)

lemma Update_Inl:
  assumes "Update now rows user = (Inl err, rows')"
  shows "rows' = rows"
proof (cases "filter (Update_hit user) rows = []")
  case True
  from Update_no_hit [OF True, of now] assms show ?thesis by simp
next
  case False
  with assms show ?thesis
    by (auto simp: Update_def Let_def split: if_splits)
qed

lemma pk_unique:
  assumes "distinct (map uID rows)" "a \<in> set rows" "b \<in> set rows" "uID a = uID b"
  shows "a = b"
  using assms by (meson distinct_map inj_onD)

lemma find_visible_hit:
  assumes pk: "distinct (map uID rows)" and h: "h \<in> set rows" "Update_hit user h"
  shows "find (\<lambda>r. uID r = uID user \<and> DeletedAt r = None) rows = Some h"
proof -
  have "\<exists>r. find (\<lambda>r. uID r = uID user \<and> DeletedAt r = None) rows = Some r"
    using h by (cases "find (\<lambda>r. uID r = uID user \<and> DeletedAt r = None) rows")
      (auto simp: find_None_iff Update_hit_def)
  then obtain r where r: "find (\<lambda>r. uID r = uID user \<and> DeletedAt r = None) rows = Some r"
    by blast
  then have "r \<in> set rows" "uID r = uID user"
    by (auto simp: find_Some_iff)
  with pk h have "r = h" by (auto intro: pk_unique simp: Update_hit_def)
  with r show ?thesis by simp
qed

text \<open>
  Claim C4. With \<open>id\<close> the primary key of \<open>users\<close>: when \<open>Update\<close> succeeds, the stored
  version of the account is the old version plus one (and the caller's copy likewise),
  and no other account is touched; when it fails, the table is as before; presenting a
  version other than the stored one of an existing account fails with
  \<open>ErrVersionMismatch\<close>, and an account that the fresh read does not find (absent or
  soft-deleted) fails with \<open>ErrNotFound\<close>.
\<close>

theorem Update_version_check:
  assumes pk: "distinct (map uID rows)"
  shows
   "(\<forall>user' rows'. Update now rows user = (Inr user', rows') \<longrightarrow>
        Version user' = Version user + 1 \<and>
        (\<exists>old new. GetByID rows (uID user) = Inr old \<and> Version old = Version user \<and>
                   GetByID rows' (uID user) = Inr new \<and> Version new = Version old + 1) \<and>
        (\<forall>uid. uid \<noteq> uID user \<longrightarrow> GetByID rows' uid = GetByID rows uid)) \<and>
    (\<forall>err rows'. Update now rows user = (Inl err, rows') \<longrightarrow> rows' = rows) \<and>
    (\<forall>existing. GetByID rows (uID user) = Inr existing \<and> Version existing \<noteq> Version user \<longrightarrow>
        Update now rows user = (Inl ErrVersionMismatch, rows)) \<and>
    (GetByID rows (uID user) = Inl ErrNotFound \<longrightarrow>
        Update now rows user = (Inl ErrNotFound, rows))"
proof -
  have ok: "Version user' = Version user + 1 \<and>
        (\<exists>old new. GetByID rows (uID user) = Inr old \<and> Version old = Version user \<and>
                   GetByID rows' (uID user) = Inr new \<and> Version new = Version old + 1) \<and>
        (\<forall>uid. uid \<noteq> uID user \<longrightarrow> GetByID rows' uid = GetByID rows uid)"
    if u: "Update now rows user = (Inr user', rows')" for user' rows'
  proof -
    from Update_Inr [OF u] have hits: "filter (Update_hit user) rows \<noteq> []"
      and user': "user' = user\<lparr>Version := Version user + 1\<rparr>"
      and rows': "rows' = Update_write now user rows" by simp_all
    from hits obtain h where h: "h \<in> set rows" "Update_hit user h"
      by (metis filter_False)
    have f: "find (\<lambda>r. uID r = uID user \<and> DeletedAt r = None) rows = Some h"
      by (rule find_visible_hit [OF pk h])
    have old: "GetByID rows (uID user) = Inr (scanUser h)"
      by (simp add: GetByID_def f)
    have new: "GetByID rows' (uID user) = Inr (scanUser (Update_row now user h))"
      using h(2) by (simp add: GetByID_def rows' find_visible_write f)
    have vo: "Version (scanUser h) = Version user"
      using h(2) by (simp add: scanUser_def Update_hit_def)
    have vn: "Version (scanUser (Update_row now user h)) = Version (scanUser h) + 1"
      by (simp add: scanUser_def)
    have other: "GetByID rows' uid = GetByID rows uid" if "uid \<noteq> uID user" for uid
    proof (cases "find (\<lambda>r. uID r = uid \<and> DeletedAt r = None) rows")
      case None
      then show ?thesis by (simp add: GetByID_def rows' find_visible_write)
    next
      case (Some r)
      then have "uID r = uid" by (auto simp: find_Some_iff)
      with that have "\<not> Update_hit user r" by (simp add: Update_hit_def)
      with Some show ?thesis by (simp add: GetByID_def rows' find_visible_write)
    qed
    from user' old new vo vn other show ?thesis by auto
  qed
  have fail: "rows' = rows" if "Update now rows user = (Inl err, rows')" for err rows'
    using that by (rule Update_Inl)
  have stale: "Update now rows user = (Inl ErrVersionMismatch, rows)"
    if g: "GetByID rows (uID user) = Inr existing" and v: "Version existing \<noteq> Version user"
    for existing
  proof -
    have "filter (Update_hit user) rows = []"
    proof (rule ccontr)
      assume "filter (Update_hit user) rows \<noteq> []"
      then obtain h where h: "h \<in> set rows" "Update_hit user h"
        by (metis filter_False)
      from find_visible_hit [OF pk h] g have "existing = scanUser h"
        by (simp add: GetByID_def)
      with h(2) v show False by (simp add: scanUser_def Update_hit_def)
    qed
    from Update_no_hit [OF this, of now] g v show ?thesis by simp
  qed
  have gone: "Update now rows user = (Inl ErrNotFound, rows)"
    if g: "GetByID rows (uID user) = Inl ErrNotFound"
  proof -
    have "filter (Update_hit user) rows = []"
    proof (rule ccontr)
      assume "filter (Update_hit user) rows \<noteq> []"
      then obtain h where h: "h \<in> set rows" "Update_hit user h"
        by (metis filter_False)
      from find_visible_hit [OF pk h] g show False
        by (simp add: GetByID_def)
    qed
    from Update_no_hit [OF this, of now] g show ?thesis by simp
  qed
  from ok fail stale gone show ?thesis by blast
qed


theorem Update_version_check_witness:
  "Update 10 [example_user] (example_user\<lparr>FullName := ''First''\<rparr>) =
     (Inr (example_user\<lparr>FullName := ''First'', Version := 2\<rparr>),
      [example_user\<lparr>FullName := ''First'', uUpdatedAt := 10, Version := 2\<rparr>]) \<and>
   (\<exists>old new. GetByID [example_user] 7 = Inr old \<and> Version old = 1 \<and>
      GetByID [example_user\<lparr>FullName := ''First'', uUpdatedAt := 10, Version := 2\<rparr>] 7 =
        Inr new \<and>
      Version new = Version old + 1) \<and>
   Update 11 [example_user\<lparr>FullName := ''First'', uUpdatedAt := 10, Version := 2\<rparr>]
       (example_user\<lparr>FullName := ''Second''\<rparr>) =
     (Inl ErrVersionMismatch,
      [example_user\<lparr>FullName := ''First'', uUpdatedAt := 10, Version := 2\<rparr>]) \<and>
   Update 11 [example_user\<lparr>FullName := ''First'', uUpdatedAt := 10, Version := 2\<rparr>]
       (example_user\<lparr>uID := 8\<rparr>) =
     (Inl ErrNotFound,
      [example_user\<lparr>FullName := ''First'', uUpdatedAt := 10, Version := 2\<rparr>])"
proof -
  let ?first = "example_user\<lparr>FullName := ''First''\<rparr>"
  let ?second = "example_user\<lparr>FullName := ''Second''\<rparr>"
  let ?row1 = "example_user\<lparr>FullName := ''First'', uUpdatedAt := 10, Version := 2\<rparr>"
  have pk0: "distinct (map uID [example_user])" by simp
  have pk1: "distinct (map uID [?row1])" by simp
  have upd: "Update 10 [example_user] ?first =
     (Inr (example_user\<lparr>FullName := ''First'', Version := 2\<rparr>), [?row1])"
    by (simp add: Update_def Update_hit_def Update_row_def example_user_def)
  have ids: "uID ?first = 7" "Version ?first = 1" by (simp_all add: example_user_def)
  from Update_version_check [OF pk0, of 10 ?first] upd
  have "\<exists>old new. GetByID [example_user] (uID ?first) = Inr old \<and>
      Version old = Version ?first \<and>
      GetByID [?row1] (uID ?first) = Inr new \<and> Version new = Version old + 1"
    by blast
  then have ver: "\<exists>old new. GetByID [example_user] 7 = Inr old \<and> Version old = 1 \<and>
      GetByID [?row1] 7 = Inr new \<and> Version new = Version old + 1"
    unfolding ids .
  have seen: "GetByID [?row1] (uID ?second) = Inr (scanUser ?row1)"
    by (simp add: GetByID_def example_user_def)
  have v: "Version (scanUser ?row1) \<noteq> Version ?second"
    by (simp add: scanUser_def example_user_def)
  from Update_version_check [OF pk1, of 11 ?second] seen v
  have stale: "Update 11 [?row1] ?second = (Inl ErrVersionMismatch, [?row1])"
    by blast
  have none: "GetByID [?row1] (uID (example_user\<lparr>uID := 8\<rparr>)) = Inl ErrNotFound"
    by (simp add: GetByID_def example_user_def)
  from Update_version_check [OF pk1, of 11 "example_user\<lparr>uID := 8\<rparr>"] none
  have gone: "Update 11 [?row1] (example_user\<lparr>uID := 8\<rparr>) = (Inl ErrNotFound, [?row1])"
    by blast
  from upd ver stale gone show ?thesis by blast
qed

section \<open>Verification: revocation\<close>

lemma map_cond_id:
  "filter P xs = [] \<Longrightarrow> map (\<lambda>r. if P r then f r else r) xs = xs"
  by (induction xs) (auto split: if_splits)

lemma Revoke_rows:
  "snd (Revoke now rows tid) =
     map (\<lambda>r. if tID r = tid \<and> RevokedAt r = None then r\<lparr>RevokedAt := Some now\<rparr> else r) rows"
  by (simp add: Revoke_def Let_def)

lemma Revoke_err:
  "fst (Revoke now rows tid) =
     (if filter (\<lambda>r. tID r = tid \<and> RevokedAt r = None) rows = [] then Some ErrNotFound
      else None)"
  by (simp add: Revoke_def Let_def)

lemma Revoke_leaves_no_hit:
  "filter (\<lambda>r. tID r = tid \<and> RevokedAt r = None) (snd (Revoke now rows tid)) = []"
  unfolding Revoke_rows by (induction rows) auto

lemma Revoke_again:
  "Revoke now' (snd (Revoke now rows tid)) tid = (Some ErrNotFound, snd (Revoke now rows tid))"
proof -
  let ?rows1 = "snd (Revoke now rows tid)"
  have nohit: "filter (\<lambda>r. tID r = tid \<and> RevokedAt r = None) ?rows1 = []"
    by (rule Revoke_leaves_no_hit)
  have "snd (Revoke now' ?rows1 tid) = ?rows1"
    unfolding Revoke_rows [of now' ?rows1] using nohit by (rule map_cond_id)
  moreover have "fst (Revoke now' ?rows1 tid) = Some ErrNotFound"
    unfolding Revoke_err [of now' ?rows1] using nohit by simp
  ultimately show ?thesis by (simp add: prod_eq_iff)
qed

lemma Revoke_revoked:
  assumes "\<forall>r \<in> set rows. tID r = tid \<longrightarrow> IsRevoked r"
  shows "Revoke now rows tid = (Some ErrNotFound, rows)"
proof -
  have nohit: "filter (\<lambda>r. tID r = tid \<and> RevokedAt r = None) rows = []"
    using assms by (auto simp: filter_empty_conv IsRevoked_def)
  have "snd (Revoke now rows tid) = rows"
    unfolding Revoke_rows using nohit by (rule map_cond_id)
  moreover have "fst (Revoke now rows tid) = Some ErrNotFound"
    unfolding Revoke_err using nohit by simp
  ultimately show ?thesis by (simp add: prod_eq_iff)
qed

lemma Revoke_valid:
  assumes "\<exists>r \<in> set rows. tID r = tid \<and> \<not> IsRevoked r"
  shows "fst (Revoke now rows tid) = None"
  unfolding Revoke_err using assms by (auto simp: filter_empty_conv IsRevoked_def)

lemma RevokeAllForUser_again:
  "RevokeAllForUser now' (snd (RevokeAllForUser now rows uid)) uid =
     (None, snd (RevokeAllForUser now rows uid))"
  by (simp add: RevokeAllForUser_def)

lemma revoke_pointwise:
  "tUserID r = uid \<Longrightarrow>
   IsRevoked (if tUserID r = uid \<and> RevokedAt r = None then r\<lparr>RevokedAt := Some now\<rparr> else r)"
  by (cases "RevokedAt r") (simp_all add: IsRevoked_def)

lemma revoke_keeps_user:
  "tUserID (if tUserID r = uid \<and> RevokedAt r = None then r\<lparr>RevokedAt := Some now\<rparr> else r) =
     tUserID r"
  by simp

lemma RevokeAllForUser_all:
  "\<forall>r \<in> set (snd (RevokeAllForUser now rows uid)). tUserID r = uid \<longrightarrow> IsRevoked r"
proof (intro ballI impI)
  fix r
  assume r: "r \<in> set (snd (RevokeAllForUser now rows uid))" and u: "tUserID r = uid"
  let ?f = "\<lambda>r. if tUserID r = uid \<and> RevokedAt r = None then r\<lparr>RevokedAt := Some now\<rparr> else r"
  from r have "r \<in> ?f ` set rows"
    unfolding RevokeAllForUser_def snd_conv set_map .
  then obtain r0 where r0: "r0 \<in> set rows" "r = ?f r0" by (rule imageE)
  have "tUserID r0 = uid" using u unfolding r0(2) revoke_keeps_user .
  then show "IsRevoked r" unfolding r0(2) by (rule revoke_pointwise)
qed

lemma map_revoke_keeps:
  assumes "\<forall>r \<in> set rows. tID r = tid \<longrightarrow> IsRevoked r"
  shows "\<forall>r \<in> set (map (\<lambda>r. if P r then r\<lparr>RevokedAt := Some now\<rparr> else r) rows).
           tID r = tid \<longrightarrow> IsRevoked r"
  using assms by (induction rows) (simp_all add: IsRevoked_def)

lemma Token_Create_rows:
  "refresh_tokens (snd (Token_Create st t)) = refresh_tokens st \<or>
   refresh_tokens (snd (Token_Create st t)) = refresh_tokens st @ [t\<lparr>RevokedAt := None\<rparr>]"
  by (simp add: Token_Create_def)

lemma token_step_keeps_revoked:
  assumes old: "\<forall>r \<in> set (refresh_tokens st). tID r = tid \<longrightarrow> IsRevoked r"
    and fresh: "\<forall>t. snd nop = OpCreate t \<longrightarrow> tID t \<noteq> tid"
  shows "\<forall>r \<in> set (refresh_tokens (token_step st nop)). tID r = tid \<longrightarrow> IsRevoked r"
proof (cases nop)
  case (Pair now op)
  show ?thesis
  proof (cases op)
    case (OpCreate t)
    have ne: "tID t \<noteq> tid" using fresh Pair OpCreate by simp
    have step: "token_step st nop = snd (Token_Create st t)"
      by (simp add: Pair OpCreate)
    from Token_Create_rows [of st t] show ?thesis
    proof
      assume "refresh_tokens (snd (Token_Create st t)) = refresh_tokens st"
      with old show ?thesis by (simp add: step)
    next
      assume "refresh_tokens (snd (Token_Create st t)) =
                refresh_tokens st @ [t\<lparr>RevokedAt := None\<rparr>]"
      with old ne show ?thesis by (simp add: step)
    qed
  next
    case (OpGetByHash h)
    with Pair old show ?thesis by simp
  next
    case (OpRevoke i)
    have "refresh_tokens (token_step st nop) =
            map (\<lambda>r. if tID r = i \<and> RevokedAt r = None then r\<lparr>RevokedAt := Some now\<rparr> else r)
              (refresh_tokens st)"
      by (simp add: Pair OpRevoke Revoke_rows)
    then show ?thesis
      using map_revoke_keeps [OF old, of "\<lambda>r. tID r = i \<and> RevokedAt r = None" now]
      by (simp only:)
  next
    case (OpRevokeAllForUser u)
    have "refresh_tokens (token_step st nop) =
            map (\<lambda>r. if tUserID r = u \<and> RevokedAt r = None then r\<lparr>RevokedAt := Some now\<rparr>
                      else r) (refresh_tokens st)"
      by (simp add: Pair OpRevokeAllForUser RevokeAllForUser_def)
    then show ?thesis
      using map_revoke_keeps [OF old, of "\<lambda>r. tUserID r = u \<and> RevokedAt r = None" now]
      by (simp only:)
  next
    case OpDeleteExpired
    have "refresh_tokens (token_step st nop) =
            filter (\<lambda>r. \<not> ExpiresAt r < now - 604800) (refresh_tokens st)"
      by (simp add: Pair OpDeleteExpired DeleteExpired_def Let_def)
    with old show ?thesis by simp
  qed
qed

lemma run_token_ops_keeps_revoked:
  assumes "\<forall>r \<in> set (refresh_tokens st). tID r = tid \<longrightarrow> IsRevoked r"
    and "\<forall>nop \<in> set ops. \<forall>t. snd nop = OpCreate t \<longrightarrow> tID t \<noteq> tid"
  shows "\<forall>r \<in> set (refresh_tokens (run_token_ops st ops)). tID r = tid \<longrightarrow> IsRevoked r"
  using assms unfolding run_token_ops_def
proof (induction ops arbitrary: st)
  case Nil
  then show ?case by simp
next
  case (Cons nop ops)
  have step: "\<forall>r \<in> set (refresh_tokens (token_step st nop)). tID r = tid \<longrightarrow> IsRevoked r"
    using Cons.prems(1) by (rule token_step_keeps_revoked) (use Cons.prems(2) in simp)
  have rest: "\<forall>nop \<in> set ops. \<forall>t. snd nop = OpCreate t \<longrightarrow> tID t \<noteq> tid"
    using Cons.prems(2) by simp
  from Cons.IH [OF step rest] show ?case by simp
qed

text \<open>
  Claim C5, as the code has it. \<open>RevokeAllForUser\<close> always succeeds, leaves every record
  of the account revoked, and a second call changes nothing. \<open>Revoke\<close> on a token that
  is already revoked changes nothing but answers \<open>ErrNotFound\<close>, since its \<open>UPDATE\<close>
  affects no row: called twice, the second call is a no-op that fails; it succeeds when
  a record with the id is not yet revoked. Once the records with an id are revoked they
  stay revoked through every sequence of repository calls, where created records carry
  other ids (identifiers are fresh).
\<close>

theorem Revoke_idempotence:
  "Revoke now' (snd (Revoke now rows tid)) tid = (Some ErrNotFound, snd (Revoke now rows tid)) \<and>
   ((\<forall>r \<in> set rows. tID r = tid \<longrightarrow> IsRevoked r) \<longrightarrow>
      Revoke now rows tid = (Some ErrNotFound, rows)) \<and>
   ((\<exists>r \<in> set rows. tID r = tid \<and> \<not> IsRevoked r) \<longrightarrow> fst (Revoke now rows tid) = None) \<and>
   fst (RevokeAllForUser now rows uid) = None \<and>
   RevokeAllForUser now' (snd (RevokeAllForUser now rows uid)) uid =
     (None, snd (RevokeAllForUser now rows uid)) \<and>
   (\<forall>r \<in> set (snd (RevokeAllForUser now rows uid)). tUserID r = uid \<longrightarrow> IsRevoked r) \<and>
   ((\<forall>r \<in> set (refresh_tokens st). tID r = tid \<longrightarrow> IsRevoked r) \<and>
    (\<forall>nop \<in> set ops. \<forall>t. snd nop = OpCreate t \<longrightarrow> tID t \<noteq> tid) \<longrightarrow>
      (\<forall>r \<in> set (refresh_tokens (run_token_ops st ops)). tID r = tid \<longrightarrow> IsRevoked r))"
proof (intro conjI impI)
  show "Revoke now' (snd (Revoke now rows tid)) tid =
          (Some ErrNotFound, snd (Revoke now rows tid))"
    by (rule Revoke_again)
  show "Revoke now rows tid = (Some ErrNotFound, rows)"
    if "\<forall>r \<in> set rows. tID r = tid \<longrightarrow> IsRevoked r"
    using that by (rule Revoke_revoked)
  show "fst (Revoke now rows tid) = None"
    if "\<exists>r \<in> set rows. tID r = tid \<and> \<not> IsRevoked r"
    using that by (rule Revoke_valid)
  show "fst (RevokeAllForUser now rows uid) = None"
    by (simp add: RevokeAllForUser_def)
  show "RevokeAllForUser now' (snd (RevokeAllForUser now rows uid)) uid =
          (None, snd (RevokeAllForUser now rows uid))"
    by (rule RevokeAllForUser_again)
  show "\<forall>r \<in> set (snd (RevokeAllForUser now rows uid)). tUserID r = uid \<longrightarrow> IsRevoked r"
    by (rule RevokeAllForUser_all)
  show "\<forall>r \<in> set (refresh_tokens (run_token_ops st ops)). tID r = tid \<longrightarrow> IsRevoked r"
    if "(\<forall>r \<in> set (refresh_tokens st). tID r = tid \<longrightarrow> IsRevoked r) \<and>
        (\<forall>nop \<in> set ops. \<forall>t. snd nop = OpCreate t \<longrightarrow> tID t \<noteq> tid)"
    using that by (intro run_token_ops_keeps_revoked) simp_all
qed

text \<open>
  The claim as stated has \<open>Revoke\<close> succeed on an already revoked token; it answers
  \<open>ErrNotFound\<close>.
\<close>

theorem Revoke_already_revoked_counterexample:
  "Revoke 20 [example_token\<lparr>RevokedAt := Some 10\<rparr>] 3 =
     (Some ErrNotFound, [example_token\<lparr>RevokedAt := Some 10\<rparr>]) \<and>
   fst (Revoke 20 [example_token\<lparr>RevokedAt := Some 10\<rparr>] 3) \<noteq> None"
  by (simp add: Revoke_def example_token_def)

theorem Revoke_idempotence_witness:
  "Revoke 10 [example_token] 3 = (None, [example_token\<lparr>RevokedAt := Some 10\<rparr>]) \<and>
   Revoke 20 [example_token\<lparr>RevokedAt := Some 10\<rparr>] 3 =
     (Some ErrNotFound, [example_token\<lparr>RevokedAt := Some 10\<rparr>]) \<and>
   RevokeAllForUser 20 [example_token\<lparr>RevokedAt := Some 10\<rparr>] 7 =
     (None, [example_token\<lparr>RevokedAt := Some 10\<rparr>]) \<and>
   IsRevoked (hd (refresh_tokens
     (run_token_ops (example_store\<lparr>refresh_tokens := [example_token\<lparr>RevokedAt := Some 10\<rparr>]\<rparr>)
        [(20, OpRevoke 3), (21, OpRevokeAllForUser 7),
         (22, OpCreate (example_token\<lparr>tID := 4, TokenHash := ''h4''\<rparr>)),
         (23, OpDeleteExpired)])))"
proof -
  let ?rev = "example_token\<lparr>RevokedAt := Some 10\<rparr>"
  let ?st = "example_store\<lparr>refresh_tokens := [?rev]\<rparr>"
  let ?ops = "[(20, OpRevoke 3), (21, OpRevokeAllForUser 7),
               (22, OpCreate (example_token\<lparr>tID := 4, TokenHash := ''h4''\<rparr>)),
               (23::int, OpDeleteExpired)]"
  note inst = Revoke_idempotence [where now' = 20 and now = 10 and rows = "[example_token]"
      and tid = 3 and uid = 7 and st = ?st and ops = ?ops]
  have first: "Revoke 10 [example_token] 3 = (None, [?rev])"
    by (simp add: Revoke_def example_token_def)
  have all1: "RevokeAllForUser 10 [example_token] 7 = (None, [?rev])"
    by (simp add: RevokeAllForUser_def example_token_def)
  from inst have "Revoke 20 (snd (Revoke 10 [example_token] 3)) 3 =
      (Some ErrNotFound, snd (Revoke 10 [example_token] 3))"
    by (rule conjunct1)
  then have second: "Revoke 20 [?rev] 3 = (Some ErrNotFound, [?rev])"
    unfolding first snd_conv .
  from inst have "RevokeAllForUser 20 (snd (RevokeAllForUser 10 [example_token] 7)) 7 =
      (None, snd (RevokeAllForUser 10 [example_token] 7))"
    by blast
  then have all2: "RevokeAllForUser 20 [?rev] 7 = (None, [?rev])"
    unfolding all1 snd_conv .
  have pre: "\<forall>r \<in> set (refresh_tokens ?st). tID r = 3 \<longrightarrow> IsRevoked r"
    by (simp add: IsRevoked_def)
  have fresh: "\<forall>nop \<in> set ?ops. \<forall>t. snd nop = OpCreate t \<longrightarrow> tID t \<noteq> 3"
    by simp
  from inst pre fresh
  have kept: "\<forall>r \<in> set (refresh_tokens (run_token_ops ?st ?ops)). tID r = 3 \<longrightarrow> IsRevoked r"
    by blast
  have run: "refresh_tokens (run_token_ops ?st ?ops) =
      [?rev, example_token\<lparr>tID := 4, TokenHash := ''h4''\<rparr>]"
    by (simp add: run_token_ops_def Revoke_def RevokeAllForUser_def Token_Create_def
        DeleteExpired_def example_store_def example_token_def example_user_def)
  have "IsRevoked (hd (refresh_tokens (run_token_ops ?st ?ops)))"
    using kept unfolding run by (simp add: example_token_def)
  with first second all2 show ?thesis by blast
qed

end
